theory Spec2Isabelle
  imports Complex_Main
begin

section \<open>nut: line numbers painted on a canvas behind a textarea\<close>

text \<open>
  A shallow embedding of \<^verbatim>\<open>src/nut.ts\<close>. Everything the code reads from the
  browser is an explicit input:
  \<^item> the host element (\<open>host\<close>): its computed style, its attributes and its
    \<^verbatim>\<open>scrollHeight\<close>;
  \<^item> the browser (\<open>browser\<close>): the layout of the measuring probe
    (\<^verbatim>\<open>clientWidth\<close>, \<^verbatim>\<open>clientHeight\<close>), the export of a canvas
    (\<^verbatim>\<open>toDataURL\<close>) and the printing of a non-integral number.
  Everything the code writes is state that is passed on: the instance \<open>nu\<close> with its
  canvas, its snapshot and the inline style text of the host.

  Numbers. \<^verbatim>\<open>clientWidth\<close>, \<^verbatim>\<open>clientHeight\<close> and \<^verbatim>\<open>scrollHeight\<close> are
  non-negative integers (\<open>nat\<close>); \<^verbatim>\<open>scrollHeight\<close> is a 32-bit \<^verbatim>\<open>long\<close>, so
  every loop index stays in the range where a JavaScript number is an exact integer.
  The device pixel ratio and the products with it are rationals (\<open>rat\<close>). The one
  division of the code, \<^verbatim>\<open>scrollHeight / measure.lineHeight\<close>, has its IEEE
  results \<^verbatim>\<open>Infinity\<close> and \<^verbatim>\<open>NaN\<close> written out (\<open>js_number\<close>).
\<close>

subsection \<open>Types of the source\<close>

text \<open>\<^verbatim>\<open>TStyles\<close> as passed to \<^verbatim>\<open>nut(el, styles)\<close>: every key is optional.
  \<open>None\<close> is an absent key (a key bound to \<^verbatim>\<open>undefined\<close> is not modelled).\<close>

record tstyles =
  numberWidth :: "string option"
  numberPadding :: "string option"
  numberColor :: "string option"
  numberBgColor :: "string option"

text \<open>The object literal that \<^verbatim>\<open>ensureStyles\<close> returns: all four keys are bound.\<close>

record styles =
  s_numberPadding :: string
  s_numberWidth :: string
  s_numberColor :: string
  s_numberBgColor :: string

record tmeasure =
  lineHeight :: nat
  fontSize :: nat
  paddingTop :: nat
  paddingRight :: nat
  nuWidth :: nat
  nuPadding :: nat

datatype EDataAttr = Width | Padding | Color | BgColor

fun dataAttrsMap :: "EDataAttr \<Rightarrow> string" where
  "dataAttrsMap Width = ''data-nut-width''"
| "dataAttrsMap Padding = ''data-nut-padding''"
| "dataAttrsMap Color = ''data-nut-color''"
| "dataAttrsMap BgColor = ''data-nut-bg-color''"

definition dataAttrs :: "string list" where
  "dataAttrs = map dataAttrsMap [Width, Padding, Color, BgColor]"

definition mutationStyleProps :: "string list" where
  "mutationStyleProps =
     [''paddingTop'', ''paddingRight'', ''lineHeight'', ''fontSize'', ''fontFamily'']"

subsection \<open>The host element and the browser\<close>

text \<open>\<open>computed\<close> is \<^verbatim>\<open>getComputedStyle(el, null)\<close>, indexed by property name as
  \<^verbatim>\<open>style[prop]\<close> is; \<open>attrs\<close> is \<^verbatim>\<open>el.getAttribute\<close> (\<open>None\<close> for
  \<^verbatim>\<open>null\<close>).\<close>

record host =
  computed :: "string \<Rightarrow> string"
  attrs :: "string \<Rightarrow> string option"
  scrollHeight :: nat

text \<open>The measuring probe of \<^verbatim>\<open>getMeasure\<close>: a \<^verbatim>\<open>div\<close> with its inline
  declarations (the \<^verbatim>\<open>padding\<close> shorthand as its four sides) and its content.\<close>

record box =
  box_width :: string
  box_margin :: string
  box_paddingTop :: string
  box_paddingRight :: string
  box_paddingBottom :: string
  box_paddingLeft :: string
  box_fontFamily :: string
  box_fontSize :: string
  box_lineHeight :: string
  box_innerHTML :: string

datatype draw_op =
  FillRect rat rat rat rat string
| FillText string rat rat string string string

text \<open>The canvas with its 2D context. \<open>ops\<close> is what has been painted since the
  bitmap was last cleared: \<open>FillRect x y w h fillStyle\<close> and
  \<open>FillText text x y fillStyle font textAlign\<close>.\<close>

record canvas =
  cv_width :: nat
  cv_height :: nat
  fillStyle :: string
  textAlign :: string
  font :: string
  transform :: "rat \<times> rat"
  ops :: "draw_op list"

record browser =
  clientWidth :: "box \<Rightarrow> nat"
  clientHeight :: "box \<Rightarrow> nat"
  toDataURL :: "canvas \<Rightarrow> string"
  numberToString :: "rat \<Rightarrow> string"

subsection \<open>Numbers and strings of JavaScript\<close>

definition digit :: "nat \<Rightarrow> char" where
  "digit d = char_of (48 + d)"

text \<open>\<^verbatim>\<open>(n).toString()\<close> and \<^verbatim>\<open>`${n}`\<close> of a non-negative integer: its decimal
  digits.\<close>

function toString :: "nat \<Rightarrow> string" where
  "toString n = (if n < 10 then [digit n] else toString (n div 10) @ [digit (n mod 10)])"
  by pat_completeness auto
termination
  by (relation "measure id") auto

text \<open>The number that a string of decimal digits denotes; it reads back what
  \<open>toString\<close> prints.\<close>

definition digit_val :: "char \<Rightarrow> nat" where
  "digit_val c = of_char c - 48"

definition parseInt :: "string \<Rightarrow> nat" where
  "parseInt s = foldl (\<lambda>a c. 10 * a + digit_val c) 0 s"

text \<open>\<^verbatim>\<open>Array.prototype.join\<close>.\<close>

fun join :: "string \<Rightarrow> string list \<Rightarrow> string" where
  "join sep [] = []"
| "join sep [x] = x"
| "join sep (x # y # ys) = x @ sep @ join sep (y # ys)"

datatype js_number = Finite rat | Infinity | NaN

text \<open>\<^verbatim>\<open>a / b\<close> for two non-negative integers.\<close>

definition js_div :: "nat \<Rightarrow> nat \<Rightarrow> js_number" where
  "js_div a b =
     (if b = 0 then (if a = 0 then NaN else Infinity) else Finite (of_nat a / of_nat b))"

fun Math_ceil :: "js_number \<Rightarrow> js_number" where
  "Math_ceil (Finite r) = Finite (of_int \<lceil>r\<rceil>)"
| "Math_ceil Infinity = Infinity"
| "Math_ceil NaN = NaN"

text \<open>\<^verbatim>\<open>index < lines\<close>: every comparison with \<^verbatim>\<open>NaN\<close> is false.\<close>

fun js_less :: "nat \<Rightarrow> js_number \<Rightarrow> bool" where
  "js_less i (Finite r) = (of_nat i < r)"
| "js_less i Infinity = True"
| "js_less i NaN = False"

text \<open>Assigning a number to \<^verbatim>\<open>canvas.width\<close> or \<^verbatim>\<open>canvas.height\<close>, which are
  \<^verbatim>\<open>unsigned long\<close>: the fraction is cut off, the rest is taken modulo \<open>2^32\<close>.\<close>

definition to_unsigned_long :: "rat \<Rightarrow> nat" where
  "to_unsigned_long r = nat ((if 0 \<le> r then \<lfloor>r\<rfloor> else \<lceil>r\<rceil>) mod 2 ^ 32)"

subsection \<open>debounce\<close>

text \<open>
  The event loop with its timers, in discrete time. \<open>pending\<close> holds the timers armed by
  \<^verbatim>\<open>setTimeout\<close> as (handle, due time); \<open>timeout\<close> is the variable of the closure
  that \<^verbatim>\<open>debounce\<close> returns; \<open>ctx\<close> is the object \<^verbatim>\<open>func\<close> is called on.
\<close>

record 'w event_loop =
  now :: nat
  next_handle :: nat
  pending :: "(nat \<times> nat) list"
  timeout :: "nat option"
  ctx :: 'w

definition clearTimeout :: "nat option \<Rightarrow> 'w event_loop \<Rightarrow> 'w event_loop" where
  "clearTimeout t s =
     (case t of None \<Rightarrow> s
      | Some h \<Rightarrow> s\<lparr>pending := filter (\<lambda>(h', d). h' \<noteq> h) (pending s)\<rparr>)"

definition setTimeout :: "nat \<Rightarrow> 'w event_loop \<Rightarrow> nat \<times> 'w event_loop" where
  "setTimeout wait s =
     (next_handle s,
      s\<lparr>next_handle := Suc (next_handle s),
        pending := pending s @ [(next_handle s, now s + wait)]\<rparr>)"

text \<open>The body of the timer: \<^verbatim>\<open>func.call(ctx); timeout = null\<close>.\<close>

definition callback :: "('w \<Rightarrow> 'w) \<Rightarrow> 'w event_loop \<Rightarrow> 'w event_loop" where
  "callback func s = s\<lparr>ctx := func (ctx s), timeout := None\<rparr>"

text \<open>The function that \<^verbatim>\<open>debounce(func, wait, ctx)\<close> returns, called at the
  current time.\<close>

definition debounce :: "('w \<Rightarrow> 'w) \<Rightarrow> nat \<Rightarrow> 'w event_loop \<Rightarrow> 'w event_loop" where
  "debounce func wait s =
     (let s1 = clearTimeout (timeout s) s;
          (h, s2) = setTimeout wait s1
      in s2\<lparr>timeout := Some h\<rparr>)"

text \<open>Time passes until \<open>t\<close>: every timer that is due by then runs its body and leaves
  the table. (A timer due exactly at \<open>t\<close> runs before what happens at \<open>t\<close>.)\<close>

definition advance :: "('w \<Rightarrow> 'w) \<Rightarrow> nat \<Rightarrow> 'w event_loop \<Rightarrow> 'w event_loop" where
  "advance func t s =
     (let due = filter (\<lambda>(h, d). d \<le> t) (pending s);
          s1 = s\<lparr>pending := filter (\<lambda>(h, d). \<not> d \<le> t) (pending s)\<rparr>;
          s2 = fold (\<lambda>_. callback func) due s1
      in s2\<lparr>now := max (now s) t\<rparr>)"

text \<open>\<^verbatim>\<open>render = debounce(this.handleRender, 20, this)\<close>; \<open>func\<close> stands for the
  render body bound to the instance.\<close>

definition render :: "('w \<Rightarrow> 'w) \<Rightarrow> 'w event_loop \<Rightarrow> 'w event_loop" where
  "render func = debounce func 20"

text \<open>A run of the page: \<^verbatim>\<open>render()\<close> is called at each of the times \<open>ts\<close>.\<close>

fun requests :: "('w \<Rightarrow> 'w) \<Rightarrow> nat list \<Rightarrow> 'w event_loop \<Rightarrow> 'w event_loop" where
  "requests func [] s = s"
| "requests func (t # ts) s = requests func ts (render func (advance func t s))"

definition idle :: "'w \<Rightarrow> 'w event_loop" where
  "idle w = \<lparr>now = 0, next_handle = 1, pending = [], timeout = None, ctx = w\<rparr>"

text \<open>What the closure holds: no timer, or exactly one timer, due at \<open>d\<close>.\<close>

definition quiet :: "'w event_loop \<Rightarrow> bool" where
  "quiet s = (timeout s = None \<and> pending s = [])"

definition armed :: "'w event_loop \<Rightarrow> nat \<Rightarrow> bool" where
  "armed s d = (case timeout s of None \<Rightarrow> False | Some h \<Rightarrow> pending s = [(h, d)])"

text \<open>Request times in which every request comes less than \<open>wait\<close> after the one
  before it, and request times in which every request comes more than \<open>wait\<close> after
  the one before it.\<close>

fun burst :: "nat \<Rightarrow> nat list \<Rightarrow> bool" where
  "burst wait (t # u # ts) = (t \<le> u \<and> u < t + wait \<and> burst wait (u # ts))"
| "burst wait ts = True"

fun spaced :: "nat \<Rightarrow> nat list \<Rightarrow> bool" where
  "spaced wait (t # u # ts) = (t + wait < u \<and> spaced wait (u # ts))"
| "spaced wait ts = True"

subsection \<open>getMeasure\<close>

text \<open>\<^verbatim>\<open>document.createElement("div")\<close>: no declaration, no content.\<close>

definition createElement_div :: box where
  "createElement_div =
     \<lparr>box_width = [], box_margin = [], box_paddingTop = [], box_paddingRight = [],
      box_paddingBottom = [], box_paddingLeft = [], box_fontFamily = [],
      box_fontSize = [], box_lineHeight = [], box_innerHTML = []\<rparr>"

text \<open>\<^verbatim>\<open>box.style.padding = v\<close>: the shorthand with one value sets the four sides.\<close>

definition set_padding :: "string \<Rightarrow> box \<Rightarrow> box" where
  "set_padding v b =
     b\<lparr>box_paddingTop := v, box_paddingRight := v, box_paddingBottom := v,
       box_paddingLeft := v\<rparr>"

text \<open>The probe is appended to the body before the first read and removed after the
  last one; the reads are in the order of the source.\<close>

definition getMeasure :: "browser \<Rightarrow> (string \<Rightarrow> string) \<Rightarrow> styles \<Rightarrow> tmeasure" where
  "getMeasure br css st =
     (let box0 = createElement_div
            \<lparr>box_width := ''0'', box_margin := ''0'',
             box_paddingTop := css ''paddingTop'', box_paddingRight := css ''paddingRight'',
             box_paddingBottom := ''0'', box_paddingLeft := ''0'',
             box_fontFamily := css ''fontFamily'', box_fontSize := css ''fontSize'',
             box_lineHeight := css ''lineHeight''\<rparr>;
          paddingTop' = clientHeight br box0;
          paddingRight' = clientWidth br box0;
          box1 = box0\<lparr>box_paddingRight := s_numberPadding st\<rparr>;
          nuPadding' = clientWidth br box1;
          box2 = set_padding ''0'' box1;
          box3 = box2\<lparr>box_width := s_numberWidth st\<rparr>;
          nuWidth' = clientWidth br box3;
          box4 = box3\<lparr>box_innerHTML := ''&nbsp;''\<rparr>;
          lineHeight' = clientHeight br box4;
          box5 = box4\<lparr>box_lineHeight := ''1''\<rparr>;
          fontSize' = clientHeight br box5
      in \<lparr>lineHeight = lineHeight', fontSize = fontSize', paddingTop = paddingTop',
          paddingRight = paddingRight', nuWidth = nuWidth', nuPadding = nuPadding'\<rparr>)"

subsection \<open>StyleMutation\<close>

text \<open>The two \<^verbatim>\<open>Map\<close>s. A value of \<open>prevData\<close> can be \<^verbatim>\<open>null\<close>, the result of
  \<^verbatim>\<open>getAttribute\<close> on a missing attribute.\<close>

record style_mutation =
  prevStyle :: "string \<Rightarrow> string option"
  prevData :: "string \<Rightarrow> string option option"

definition new_StyleMutation :: style_mutation where
  "new_StyleMutation = \<lparr>prevStyle = Map.empty, prevData = Map.empty\<rparr>"

definition set_StyleMutation ::
  "style_mutation \<Rightarrow> (string \<Rightarrow> string) \<Rightarrow> (string \<Rightarrow> string option) \<Rightarrow> style_mutation" where
  "set_StyleMutation sm style el_attrs =
     \<lparr>prevStyle = fold (\<lambda>prop prev. prev(prop \<mapsto> style prop)) mutationStyleProps (prevStyle sm),
      prevData = fold (\<lambda>attr prev. prev(attr \<mapsto> el_attrs attr)) dataAttrs (prevData sm)\<rparr>"

text \<open>\<^verbatim>\<open>value != prevValue\<close> for a string and a string or \<^verbatim>\<open>undefined\<close>: two
  strings are compared as strings, and no string equals \<^verbatim>\<open>undefined\<close>.\<close>

definition loose_neq :: "string \<Rightarrow> string option \<Rightarrow> bool" where
  "loose_neq v prevValue = (prevValue \<noteq> Some v)"

definition styleDiff_step ::
  "(string \<Rightarrow> string) \<Rightarrow> string \<Rightarrow> bool \<times> (string \<Rightarrow> string option)
     \<Rightarrow> bool \<times> (string \<Rightarrow> string option)" where
  "styleDiff_step style prop acc =
     (let (result, prev) = acc;
          prevValue = prev prop;
          v = style prop
      in if loose_neq v prevValue then (True, prev(prop \<mapsto> v)) else (result, prev))"

definition styleDiff :: "style_mutation \<Rightarrow> (string \<Rightarrow> string) \<Rightarrow> bool \<times> style_mutation" where
  "styleDiff sm style =
     (let (result, prev) = fold (styleDiff_step style) mutationStyleProps (False, prevStyle sm)
      in (result, sm\<lparr>prevStyle := prev\<rparr>))"

subsection \<open>Nu\<close>

text \<open>The instance. \<open>nu_styles\<close> is \<^verbatim>\<open>this.styles\<close> (\<open>None\<close> for
  \<^verbatim>\<open>undefined\<close>); \<open>el_cssText\<close> is \<^verbatim>\<open>this.el.style.cssText\<close>, the only part
  of the host that a render pass writes.\<close>

record nu =
  nu_styles :: "tstyles option"
  dpr :: rat
  nu_canvas :: canvas
  styleMutation :: style_mutation
  el_cssText :: string

text \<open>The state of a 2D context after \<^verbatim>\<open>getContext("2d")\<close> and after every
  assignment to the width or the height of its canvas, which clears the bitmap.\<close>

definition reset_context :: "canvas \<Rightarrow> canvas" where
  "reset_context cv =
     cv\<lparr>fillStyle := ''#000000'', textAlign := ''start'', font := ''10px sans-serif'',
        transform := (1, 1), ops := []\<rparr>"

definition createElement_canvas :: canvas where
  "createElement_canvas =
     \<lparr>cv_width = 300, cv_height = 150, fillStyle = ''#000000'', textAlign = ''start'',
      font = ''10px sans-serif'', transform = (1, 1), ops = []\<rparr>"

definition set_width :: "rat \<Rightarrow> canvas \<Rightarrow> canvas" where
  "set_width r cv = reset_context (cv\<lparr>cv_width := to_unsigned_long r\<rparr>)"

definition set_height :: "rat \<Rightarrow> canvas \<Rightarrow> canvas" where
  "set_height r cv = reset_context (cv\<lparr>cv_height := to_unsigned_long r\<rparr>)"

definition fillRect :: "rat \<Rightarrow> rat \<Rightarrow> rat \<Rightarrow> rat \<Rightarrow> canvas \<Rightarrow> canvas" where
  "fillRect x y w h cv = cv\<lparr>ops := ops cv @ [FillRect x y w h (fillStyle cv)]\<rparr>"

definition fillText :: "string \<Rightarrow> rat \<Rightarrow> rat \<Rightarrow> canvas \<Rightarrow> canvas" where
  "fillText t x y cv =
     cv\<lparr>ops := ops cv @ [FillText t x y (fillStyle cv) (font cv) (textAlign cv)]\<rparr>"

text \<open>The constructor; \<open>devicePixelRatio\<close> is \<^verbatim>\<open>window.devicePixelRatio\<close> and
  \<open>cssText\<close> the inline style the element has when it is attached.\<close>

definition new_Nu :: "tstyles option \<Rightarrow> rat \<Rightarrow> string \<Rightarrow> nu" where
  "new_Nu st devicePixelRatio cssText =
     (let dpr' = (if devicePixelRatio = 0 then 1 else devicePixelRatio);
          cv = createElement_canvas\<lparr>transform := (dpr', dpr')\<rparr>
      in \<lparr>nu_styles = st, dpr = dpr', nu_canvas = cv, styleMutation = new_StyleMutation,
          el_cssText = cssText\<rparr>)"

text \<open>\<^verbatim>\<open>this.el.getAttribute(dataAttrsMap.get(attr)) || defaultValue\<close>: \<^verbatim>\<open>null\<close>
  and the empty string are falsy.\<close>

definition getAttr :: "host \<Rightarrow> EDataAttr \<Rightarrow> string \<Rightarrow> string" where
  "getAttr el attr defaultValue =
     (case attrs el (dataAttrsMap attr) of
        None \<Rightarrow> defaultValue
      | Some v \<Rightarrow> if v = [] then defaultValue else v)"

definition no_styles :: tstyles where
  "no_styles =
     \<lparr>numberWidth = None, numberPadding = None, numberColor = None, numberBgColor = None\<rparr>"

text \<open>\<^verbatim>\<open>{ ...defaults, ...this.styles }\<close>: a key of the second object replaces the
  key of the first.\<close>

definition spread :: "string \<Rightarrow> string option \<Rightarrow> string" where
  "spread v override = (case override of None \<Rightarrow> v | Some v' \<Rightarrow> v')"

definition ensureStyles :: "host \<Rightarrow> nu \<Rightarrow> styles \<times> nu" where
  "ensureStyles el this =
     (let st = (case nu_styles this of None \<Rightarrow> no_styles | Some st' \<Rightarrow> st');
          this' = this\<lparr>nu_styles := Some st\<rparr>
      in (\<lparr>s_numberPadding = spread (getAttr el Padding ''8px'') (numberPadding st),
           s_numberWidth = spread (getAttr el Width ''64px'') (numberWidth st),
           s_numberColor = spread (getAttr el Color ''#666'') (numberColor st),
           s_numberBgColor = spread (getAttr el BgColor ''#f4f4f4'') (numberBgColor st)\<rparr>,
          this'))"

text \<open>The array \<^verbatim>\<open>css\<close> of \<^verbatim>\<open>setStyle\<close>.\<close>

definition setStyle_css :: "tmeasure \<Rightarrow> string \<Rightarrow> string list" where
  "setStyle_css mesaure dataURL =
     [''padding-left: '' @ toString (nuWidth mesaure + paddingRight mesaure) @ ''px'',
      ''box-sizing: border-box'',
      ''background-repeat: no-repeat'',
      ''background-attachment: local'',
      ''background-size: '' @ toString (nuWidth mesaure) @ ''px auto'',
      ''background-image: url('' @ dataURL @ '')'']"

definition setStyle :: "tmeasure \<Rightarrow> string \<Rightarrow> nu \<Rightarrow> nu" where
  "setStyle mesaure dataURL this =
     this\<lparr>el_cssText := el_cssText this @ join '';'' (setStyle_css mesaure dataURL)\<rparr>"

definition drawLine_x :: "nu \<Rightarrow> tmeasure \<Rightarrow> rat" where
  "drawLine_x this measure' =
     of_nat (cv_width (nu_canvas this)) - of_nat (nuPadding measure') * dpr this * 2"

definition drawLine_y :: "nu \<Rightarrow> tmeasure \<Rightarrow> nat \<Rightarrow> rat \<Rightarrow> rat \<Rightarrow> rat" where
  "drawLine_y this measure' index lineHeight' fontSize' =
     of_nat (paddingTop measure') * dpr this + lineHeight' * of_nat index
       + (lineHeight' + fontSize') / 2"

definition drawLine :: "nu \<Rightarrow> tmeasure \<Rightarrow> nat \<Rightarrow> rat \<Rightarrow> rat \<Rightarrow> nu" where
  "drawLine this measure' index lineHeight' fontSize' =
     (let x = drawLine_x this measure';
          y = drawLine_y this measure' index lineHeight' fontSize'
      in this\<lparr>nu_canvas := fillText (toString (index + 1)) x y (nu_canvas this)\<rparr>)"

text \<open>The loop \<^verbatim>\<open>for (let index = 0; index < lines; index++)\<close> of
  \<^verbatim>\<open>handleRender\<close>, from the current \<open>index\<close>. A loop that does not end has the
  value \<open>None\<close>.\<close>

partial_function (option) handleRender_loop ::
  "tmeasure \<Rightarrow> rat \<Rightarrow> rat \<Rightarrow> js_number \<Rightarrow> nat \<Rightarrow> nu \<Rightarrow> nu option" where
  "handleRender_loop measure' lineHeightDPR fontSizeDPR lines index this =
     (if js_less index lines
      then handleRender_loop measure' lineHeightDPR fontSizeDPR lines (index + 1)
             (drawLine this measure' index lineHeightDPR fontSizeDPR)
      else Some this)"

text \<open>The part of \<^verbatim>\<open>handleRender\<close> before the loop.\<close>

definition handleRender_setup :: "browser \<Rightarrow> host \<Rightarrow> nu \<Rightarrow> styles \<Rightarrow> tmeasure \<Rightarrow> nu" where
  "handleRender_setup br el this st measure' =
     (let css = computed el;
          this1 = this\<lparr>styleMutation := set_StyleMutation (styleMutation this) css (attrs el)\<rparr>;
          cv1 = set_width (of_nat (nuWidth measure') * dpr this1) (nu_canvas this1);
          cv2 = set_height (of_nat (scrollHeight el) * dpr this1) cv1;
          cv3 = cv2\<lparr>fillStyle := s_numberBgColor st\<rparr>;
          cv4 = fillRect 0 0 (of_nat (cv_width cv3)) (of_nat (cv_height cv3)) cv3;
          cv5 = cv4\<lparr>fillStyle := s_numberColor st\<rparr>;
          cv6 = cv5\<lparr>textAlign := ''end''\<rparr>;
          fontSizeDPR = of_nat (fontSize measure') * dpr this1;
          fontSize' = numberToString br fontSizeDPR @ ''px'';
          cv7 = cv6\<lparr>font := fontSize' @ '' '' @ css ''fontFamily''\<rparr>
      in this1\<lparr>nu_canvas := cv7\<rparr>)"

definition handleRender :: "browser \<Rightarrow> host \<Rightarrow> nu \<Rightarrow> nu option" where
  "handleRender br el this =
     (let css = computed el;
          (st, this0) = ensureStyles el this;
          measure' = getMeasure br css st;
          this1 = handleRender_setup br el this0 st measure';
          fontSizeDPR = of_nat (fontSize measure') * dpr this1;
          lineHeightDPR = of_nat (lineHeight measure') * dpr this1;
          lines = Math_ceil (js_div (scrollHeight el) (lineHeight measure'))
      in case handleRender_loop measure' lineHeightDPR fontSizeDPR lines 0 this1 of
           None \<Rightarrow> None
         | Some this2 \<Rightarrow> Some (setStyle measure' (toDataURL br (nu_canvas this2)) this2))"

text \<open>The metrics that a render pass works with: the first lines of
  \<^verbatim>\<open>handleRender\<close>.\<close>

definition measured :: "browser \<Rightarrow> host \<Rightarrow> nu \<Rightarrow> tmeasure" where
  "measured br el this = getMeasure br (computed el) (fst (ensureStyles el this))"

subsection \<open>Observing a render pass\<close>

text \<open>The numerals painted on a canvas, in the order of painting.\<close>

fun numerals :: "draw_op list \<Rightarrow> string list" where
  "numerals [] = []"
| "numerals (FillText t x y c f a # os) = t # numerals os"
| "numerals (FillRect x y w h c # os) = numerals os"

text \<open>The positions at which text was painted, in the order of painting.\<close>

fun positions :: "draw_op list \<Rightarrow> (rat \<times> rat) list" where
  "positions [] = []"
| "positions (FillText t x y c f a # os) = (x, y) # positions os"
| "positions (FillRect x y w h c # os) = positions os"

text \<open>The alignment with which each text was painted.\<close>

fun alignments :: "draw_op list \<Rightarrow> string list" where
  "alignments [] = []"
| "alignments (FillText t x y c f a # os) = a # alignments os"
| "alignments (FillRect x y w h c # os) = alignments os"

text \<open>What a render pass has painted, and the text it has appended to the inline style
  of the host (both empty for a pass that does not return).\<close>

definition painted :: "browser \<Rightarrow> host \<Rightarrow> nu \<Rightarrow> draw_op list" where
  "painted br el this =
     (case handleRender br el this of None \<Rightarrow> [] | Some this' \<Rightarrow> ops (nu_canvas this'))"

definition written :: "browser \<Rightarrow> host \<Rightarrow> nu \<Rightarrow> string" where
  "written br el this =
     (case handleRender br el this of
        None \<Rightarrow> []
      | Some this' \<Rightarrow> drop (length (el_cssText this)) (el_cssText this'))"

text \<open>\<open>contains s p\<close>: the text \<open>p\<close> occurs in \<open>s\<close>.\<close>

fun contains :: "string \<Rightarrow> string \<Rightarrow> bool" where
  "contains [] p = (p = [])"
| "contains (c # s) p = (take (length p) (c # s) = p \<or> contains s p)"

text \<open>The baseline of line \<open>index\<close> in the words of the specification, that is with
  the measured line height and font size:
  \<^verbatim>\<open>topPadding * dpr + lineHeight * index + (lineHeight + fontSize) / 2\<close>.\<close>

definition spec_baseline :: "rat \<Rightarrow> tmeasure \<Rightarrow> nat \<Rightarrow> rat" where
  "spec_baseline dpr' m index =
     of_nat (paddingTop m) * dpr' + of_nat (lineHeight m) * of_nat index
       + (of_nat (lineHeight m) + of_nat (fontSize m)) / 2"

subsection \<open>An example page\<close>

text \<open>A layout for lengths in pixels: \<open>px\<close> reads the leading decimal digits of a
  length. The probe is as wide as its width and horizontal padding, and as high as its
  vertical padding plus one line when it has content.\<close>

definition is_digit :: "char \<Rightarrow> bool" where
  "is_digit c = (48 \<le> (of_char c :: nat) \<and> (of_char c :: nat) \<le> 57)"

definition px :: "string \<Rightarrow> nat" where
  "px s = parseInt (takeWhile is_digit s)"

definition px_browser :: browser where
  "px_browser =
     \<lparr>clientWidth = (\<lambda>b. px (box_width b) + px (box_paddingLeft b) + px (box_paddingRight b)),
      clientHeight = (\<lambda>b. px (box_paddingTop b) + px (box_paddingBottom b)
         + (if box_innerHTML b = [] then 0
            else if box_lineHeight b = ''1'' then px (box_fontSize b)
            else px (box_lineHeight b))),
      toDataURL = (\<lambda>cv. ''data:image/png;base64,'' @ concat (numerals (ops cv))),
      numberToString = (\<lambda>r. toString (nat \<lfloor>r\<rfloor>))\<rparr>"

definition textarea_css :: "string \<Rightarrow> string" where
  "textarea_css prop =
     (if prop = ''paddingTop'' then ''4px''
      else if prop = ''paddingRight'' then ''6px''
      else if prop = ''lineHeight'' then ''20px''
      else if prop = ''fontSize'' then ''16px''
      else if prop = ''fontFamily'' then ''monospace''
      else [])"

definition textarea :: host where
  "textarea = \<lparr>computed = textarea_css, attrs = Map.empty, scrollHeight = 100\<rparr>"

text \<open>The same element with a line height of zero, with and without content height.\<close>

definition collapsed_textarea :: host where
  "collapsed_textarea =
     textarea\<lparr>computed := (\<lambda>prop. if prop = ''lineHeight'' then ''0px'' else textarea_css prop)\<rparr>"

definition empty_textarea :: host where
  "empty_textarea = collapsed_textarea\<lparr>scrollHeight := 0\<rparr>"

text \<open>An element with three of the data attributes, one of them empty, and an instance
  attached with two overrides.\<close>

definition styled_textarea :: host where
  "styled_textarea =
     textarea\<lparr>attrs := [''data-nut-width'' \<mapsto> ''72px'', ''data-nut-padding'' \<mapsto> ''12px'',
                        ''data-nut-color'' \<mapsto> []]\<rparr>"

definition styled_nu :: nu where
  "styled_nu =
     new_Nu (Some \<lparr>numberWidth = Some ''80px'', numberPadding = None, numberColor = None,
                    numberBgColor = Some ''white''\<rparr>) 1 []"

text \<open>An instance on a display with two device pixels per pixel, attached without
  overrides to an element without inline style.\<close>

definition example_nu :: nu where
  "example_nu = new_Nu None 2 []"

section \<open>Properties\<close>

declare toString.simps [simp del]

subsection \<open>Decimal numerals\<close>

lemma digit_val_digit: "d < 10 \<Longrightarrow> digit_val (digit d) = d"
  by (simp add: digit_val_def digit_def)

lemma parseInt_snoc: "parseInt (s @ [c]) = 10 * parseInt s + digit_val c"
  by (simp add: parseInt_def)

lemma parseInt_toString: "parseInt (toString n) = n"
proof (induction n rule: toString.induct)
  case (1 n)
  show ?case
  proof (cases "n < 10")
    case True
    then show ?thesis
      by (subst toString.simps) (simp add: parseInt_def digit_val_digit)
  next
    case False
    then have "parseInt (toString n) = 10 * parseInt (toString (n div 10)) + n mod 10"
      by (subst toString.simps) (simp add: parseInt_snoc digit_val_digit)
    then show ?thesis using "1.IH" False by simp
  qed
qed

lemma inj_toString: "inj toString"
  by (rule inj_on_inverseI [where g = parseInt]) (rule parseInt_toString)

lemma toString_digit: "n < 10 \<Longrightarrow> toString n = [digit n]"
  by (subst toString.simps) simp

lemma toString_small:
  "toString 1 = ''1''" "toString 2 = ''2''" "toString 3 = ''3''" "toString 4 = ''4''"
  "toString 5 = ''5''" "toString 64 = ''64''" "toString 70 = ''70''" "toString 32 = ''32''"
  by (simp_all add: toString.simps [of 64] toString.simps [of 70] toString.simps [of 32]
        toString_digit digit_def char_of_def bit_0)

subsection \<open>The example page, evaluated\<close>

lemma px_values:
  "px ''4px'' = 4" "px ''6px'' = 6" "px ''20px'' = 20" "px ''16px'' = 16" "px ''64px'' = 64"
  "px ''8px'' = 8" "px ''0'' = 0" "px ''1'' = 1"
  by (simp_all add: px_def parseInt_def is_digit_def digit_val_def)

lemma example_styles:
  "fst (ensureStyles textarea example_nu) =
     \<lparr>s_numberPadding = ''8px'', s_numberWidth = ''64px'', s_numberColor = ''#666'',
      s_numberBgColor = ''#f4f4f4''\<rparr>"
  by (simp add: ensureStyles_def example_nu_def new_Nu_def textarea_def getAttr_def spread_def
        no_styles_def Let_def)

lemma example_measured:
  "measured px_browser textarea example_nu =
     \<lparr>lineHeight = 20, fontSize = 16, paddingTop = 4, paddingRight = 6, nuWidth = 64,
      nuPadding = 8\<rparr>"
  unfolding measured_def example_styles
  by (simp add: getMeasure_def createElement_div_def set_padding_def
        px_browser_def textarea_def textarea_css_def px_values Let_def)

subsection \<open>The loop of the render pass\<close>

lemma drawLine_eq:
  "drawLine this m k lh fs =
     this\<lparr>nu_canvas := (nu_canvas this)\<lparr>ops := ops (nu_canvas this) @
       [FillText (toString (k + 1)) (drawLine_x this m) (drawLine_y this m k lh fs)
          (fillStyle (nu_canvas this)) (font (nu_canvas this)) (textAlign (nu_canvas this))]\<rparr>\<rparr>"
  by (simp add: drawLine_def fillText_def Let_def)

lemma drawLine_x_cong:
  "dpr t = dpr this \<Longrightarrow> cv_width (nu_canvas t) = cv_width (nu_canvas this) \<Longrightarrow>
   drawLine_x t m = drawLine_x this m"
  by (simp add: drawLine_x_def)

lemma drawLine_y_cong:
  "dpr t = dpr this \<Longrightarrow> drawLine_y t m j lh fs = drawLine_y this m j lh fs"
  by (simp add: drawLine_y_def)

lemma fold_drawLine:
  "fold (\<lambda>k t. drawLine t m k lh fs) ks this =
     this\<lparr>nu_canvas := (nu_canvas this)\<lparr>ops := ops (nu_canvas this) @
       map (\<lambda>k. FillText (toString (k + 1)) (drawLine_x this m) (drawLine_y this m k lh fs)
                  (fillStyle (nu_canvas this)) (font (nu_canvas this))
                  (textAlign (nu_canvas this))) ks\<rparr>\<rparr>"
proof (induction ks arbitrary: this)
  case Nil
  show ?case by simp
next
  case (Cons k ks)
  define t where "t = drawLine this m k lh fs"
  have t: "t = this\<lparr>nu_canvas := (nu_canvas this)\<lparr>ops := ops (nu_canvas this) @
       [FillText (toString (k + 1)) (drawLine_x this m) (drawLine_y this m k lh fs)
          (fillStyle (nu_canvas this)) (font (nu_canvas this)) (textAlign (nu_canvas this))]\<rparr>\<rparr>"
    unfolding t_def by (rule drawLine_eq)
  have x: "drawLine_x t m = drawLine_x this m"
    by (rule drawLine_x_cong) (simp_all add: t)
  have y: "\<And>j. drawLine_y t m j lh fs = drawLine_y this m j lh fs"
    by (rule drawLine_y_cong) (simp add: t)
  have "fold (\<lambda>k t. drawLine t m k lh fs) (k # ks) this = fold (\<lambda>k t. drawLine t m k lh fs) ks t"
    by (simp add: t_def)
  also have "\<dots> = t\<lparr>nu_canvas := (nu_canvas t)\<lparr>ops := ops (nu_canvas t) @
       map (\<lambda>k. FillText (toString (k + 1)) (drawLine_x this m) (drawLine_y this m k lh fs)
                  (fillStyle (nu_canvas t)) (font (nu_canvas t))
                  (textAlign (nu_canvas t))) ks\<rparr>\<rparr>"
    unfolding Cons.IH [of t] x y ..
  also have "\<dots> = this\<lparr>nu_canvas := (nu_canvas this)\<lparr>ops := ops (nu_canvas this) @
       map (\<lambda>k. FillText (toString (k + 1)) (drawLine_x this m) (drawLine_y this m k lh fs)
                  (fillStyle (nu_canvas this)) (font (nu_canvas this))
                  (textAlign (nu_canvas this))) (k # ks)\<rparr>\<rparr>"
    by (simp add: t)
  finally show ?case .
qed


lemma loop_finite:
  "index \<le> n \<Longrightarrow>
   handleRender_loop m lh fs (Finite (of_nat n)) index this =
     Some (fold (\<lambda>k t. drawLine t m k lh fs) [index..<n] this)"
proof (induction "n - index" arbitrary: index this)
  case 0
  then have "index = n" by simp
  then show ?case by (subst handleRender_loop.simps) simp
next
  case (Suc d)
  then have lt: "index < n" and d: "d = n - (index + 1)" and le: "index + 1 \<le> n" by simp_all
  have "handleRender_loop m lh fs (Finite (of_nat n)) index this =
        handleRender_loop m lh fs (Finite (of_nat n)) (index + 1) (drawLine this m index lh fs)"
    using lt by (subst handleRender_loop.simps) simp
  also have "\<dots> = Some (fold (\<lambda>k t. drawLine t m k lh fs) [index + 1..<n] (drawLine this m index lh fs))"
    using Suc.hyps(1) [OF d le] .
  also have "\<dots> = Some (fold (\<lambda>k t. drawLine t m k lh fs) [index..<n] this)"
    using lt by (simp add: upt_conv_Cons)
  finally show ?case .
qed

lemma loop_NaN: "handleRender_loop m lh fs NaN index this = Some this"
  by (subst handleRender_loop.simps) simp

lemma loop_Infinity_aux:
  "handleRender_loop m lh fs lines index this = Some y \<Longrightarrow> lines \<noteq> Infinity"
  by (rule handleRender_loop.raw_induct [where P = "\<lambda>_ _ _ l _ _ _. l \<noteq> Infinity"])
     (auto split: if_splits)

lemma loop_Infinity: "handleRender_loop m lh fs Infinity index this = None"
proof (cases "handleRender_loop m lh fs Infinity index this")
  case None
  then show ?thesis .
next
  case (Some y)
  then show ?thesis using loop_Infinity_aux by blast
qed

lemma loop_lines:
  "handleRender_loop m lh fs (Math_ceil (js_div S L)) 0 this =
     (if L = 0 \<and> 0 < S then None
      else Some (fold (\<lambda>k t. drawLine t m k lh fs)
                   [0..<nat \<lceil>(of_nat S :: rat) / of_nat L\<rceil>] this))"
proof (cases "L = 0")
  case True
  then show ?thesis by (simp add: js_div_def loop_NaN loop_Infinity)
next
  case False
  have c: "(0::int) \<le> \<lceil>(of_nat S :: rat) / of_nat L\<rceil>"
    using ceiling_mono [of 0 "(of_nat S :: rat) / of_nat L"] by simp
  have "Math_ceil (js_div S L) = Finite (of_int \<lceil>(of_nat S :: rat) / of_nat L\<rceil>)"
    using False by (simp add: js_div_def)
  also have "\<dots> = Finite (of_nat (nat \<lceil>(of_nat S :: rat) / of_nat L\<rceil>))"
    using c by simp
  finally show ?thesis using False by (simp only: loop_finite [OF le0]) simp
qed

lemma handleRender_unfold:
  "handleRender br el this =
    (let st = fst (ensureStyles el this);
         m = getMeasure br (computed el) st;
         this1 = handleRender_setup br el (snd (ensureStyles el this)) st m;
         this2 = fold (\<lambda>k t. drawLine t m k (of_nat (lineHeight m) * dpr this1)
                   (of_nat (fontSize m) * dpr this1))
                   [0..<nat \<lceil>(of_nat (scrollHeight el) :: rat) / of_nat (lineHeight m)\<rceil>] this1
     in if lineHeight m = 0 \<and> 0 < scrollHeight el then None
        else Some (setStyle m (toDataURL br (nu_canvas this2)) this2))"
  unfolding handleRender_def Let_def split_beta loop_lines by simp

lemma setup_canvas:
  "nu_canvas (handleRender_setup br el this st m) =
     \<lparr>cv_width = to_unsigned_long (of_nat (nuWidth m) * dpr this),
      cv_height = to_unsigned_long (of_nat (scrollHeight el) * dpr this),
      fillStyle = s_numberColor st, textAlign = ''end'',
      font = numberToString br (of_nat (fontSize m) * dpr this) @ ''px'' @ '' ''
               @ computed el ''fontFamily'',
      transform = (1, 1),
      ops = [FillRect 0 0 (of_nat (to_unsigned_long (of_nat (nuWidth m) * dpr this)))
               (of_nat (to_unsigned_long (of_nat (scrollHeight el) * dpr this)))
               (s_numberBgColor st)]\<rparr>"
  by (cases "nu_canvas this")
     (simp add: handleRender_setup_def Let_def set_width_def set_height_def reset_context_def
        fillRect_def)

lemma setup_fields:
  "dpr (handleRender_setup br el this st m) = dpr this"
  "el_cssText (handleRender_setup br el this st m) = el_cssText this"
  "nu_styles (handleRender_setup br el this st m) = nu_styles this"
  "styleMutation (handleRender_setup br el this st m) =
     set_StyleMutation (styleMutation this) (computed el) (attrs el)"
  by (simp_all add: handleRender_setup_def Let_def)

lemma ensureStyles_fields:
  "dpr (snd (ensureStyles el this)) = dpr this"
  "el_cssText (snd (ensureStyles el this)) = el_cssText this"
  "nu_canvas (snd (ensureStyles el this)) = nu_canvas this"
  "styleMutation (snd (ensureStyles el this)) = styleMutation this"
  by (simp_all add: ensureStyles_def Let_def)

lemma numerals_map:
  "numerals (map (\<lambda>k. FillText (t k) (x k) (y k) (c k) (f k) (a k)) ks) = map t ks"
  by (induction ks) simp_all

lemma positions_map:
  "positions (map (\<lambda>k. FillText (t k) (x k) (y k) (c k) (f k) (a k)) ks) = map (\<lambda>k. (x k, y k)) ks"
  by (induction ks) simp_all

lemma render_returns:
  "(handleRender br el this = None) =
     (lineHeight (measured br el this) = 0 \<and> 0 < scrollHeight el)"
  by (simp add: handleRender_unfold measured_def Let_def)

lemma render_this:
  assumes "handleRender br el this = Some this'"
  shows "nu_canvas this' =
     (let st = fst (ensureStyles el this);
          m = measured br el this;
          W = to_unsigned_long (of_nat (nuWidth m) * dpr this);
          H = to_unsigned_long (of_nat (scrollHeight el) * dpr this);
          F = numberToString br (of_nat (fontSize m) * dpr this) @ ''px'' @ '' ''
                @ computed el ''fontFamily''
      in \<lparr>cv_width = W, cv_height = H, fillStyle = s_numberColor st, textAlign = ''end'',
          font = F, transform = (1, 1),
          ops = FillRect 0 0 (of_nat W) (of_nat H) (s_numberBgColor st) #
            map (\<lambda>index. FillText (toString (index + 1))
                   (of_nat W - of_nat (nuPadding m) * dpr this * 2)
                   (of_nat (paddingTop m) * dpr this
                      + of_nat (lineHeight m) * dpr this * of_nat index
                      + (of_nat (lineHeight m) * dpr this + of_nat (fontSize m) * dpr this) / 2)
                   (s_numberColor st) F ''end'')
              [0..<nat \<lceil>(of_nat (scrollHeight el) :: rat) / of_nat (lineHeight m)\<rceil>]\<rparr>)"
    and "el_cssText this' = el_cssText this
           @ join '';'' (setStyle_css (measured br el this) (toDataURL br (nu_canvas this')))"
    and "dpr this' = dpr this"
    and "nu_styles this' = Some (case nu_styles this of None \<Rightarrow> no_styles | Some st \<Rightarrow> st)"
proof -
  define st where "st = fst (ensureStyles el this)"
  define m where "m = getMeasure br (computed el) st"
  define this1 where "this1 = handleRender_setup br el (snd (ensureStyles el this)) st m"
  define this2 where "this2 = fold (\<lambda>k t. drawLine t m k (of_nat (lineHeight m) * dpr this1)
                   (of_nat (fontSize m) * dpr this1))
                   [0..<nat \<lceil>(of_nat (scrollHeight el) :: rat) / of_nat (lineHeight m)\<rceil>] this1"
  have mm: "measured br el this = m" by (simp add: measured_def m_def st_def)
  have eq: "this' = setStyle m (toDataURL br (nu_canvas this2)) this2"
    using assms unfolding handleRender_unfold Let_def st_def [symmetric] m_def [symmetric]
      this1_def [symmetric] this2_def [symmetric]
    by (simp split: if_splits)
  have d1: "dpr this1 = dpr this" "el_cssText this1 = el_cssText this"
    "nu_styles this1 = Some (case nu_styles this of None \<Rightarrow> no_styles | Some st \<Rightarrow> st)"
    by (simp_all add: this1_def setup_fields ensureStyles_fields) (simp add: ensureStyles_def Let_def)
  have c1: "nu_canvas this1 =
     \<lparr>cv_width = to_unsigned_long (of_nat (nuWidth m) * dpr this),
      cv_height = to_unsigned_long (of_nat (scrollHeight el) * dpr this),
      fillStyle = s_numberColor st, textAlign = ''end'',
      font = numberToString br (of_nat (fontSize m) * dpr this) @ ''px'' @ '' ''
               @ computed el ''fontFamily'',
      transform = (1, 1),
      ops = [FillRect 0 0 (of_nat (to_unsigned_long (of_nat (nuWidth m) * dpr this)))
               (of_nat (to_unsigned_long (of_nat (scrollHeight el) * dpr this)))
               (s_numberBgColor st)]\<rparr>"
    unfolding this1_def setup_canvas ensureStyles_fields ..
  have f2: "this2 = this1\<lparr>nu_canvas := (nu_canvas this1)\<lparr>ops := ops (nu_canvas this1) @
       map (\<lambda>k. FillText (toString (k + 1)) (drawLine_x this1 m)
                  (drawLine_y this1 m k (of_nat (lineHeight m) * dpr this1)
                     (of_nat (fontSize m) * dpr this1))
                  (fillStyle (nu_canvas this1)) (font (nu_canvas this1))
                  (textAlign (nu_canvas this1)))
         [0..<nat \<lceil>(of_nat (scrollHeight el) :: rat) / of_nat (lineHeight m)\<rceil>]\<rparr>\<rparr>"
    unfolding this2_def by (rule fold_drawLine)
  have cv: "nu_canvas this2 =
     (let W = to_unsigned_long (of_nat (nuWidth m) * dpr this);
          H = to_unsigned_long (of_nat (scrollHeight el) * dpr this);
          F = numberToString br (of_nat (fontSize m) * dpr this) @ ''px'' @ '' ''
                @ computed el ''fontFamily''
      in \<lparr>cv_width = W, cv_height = H, fillStyle = s_numberColor st, textAlign = ''end'',
          font = F, transform = (1, 1),
          ops = FillRect 0 0 (of_nat W) (of_nat H) (s_numberBgColor st) #
            map (\<lambda>index. FillText (toString (index + 1))
                   (of_nat W - of_nat (nuPadding m) * dpr this * 2)
                   (of_nat (paddingTop m) * dpr this
                      + of_nat (lineHeight m) * dpr this * of_nat index
                      + (of_nat (lineHeight m) * dpr this + of_nat (fontSize m) * dpr this) / 2)
                   (s_numberColor st) F ''end'')
              [0..<nat \<lceil>(of_nat (scrollHeight el) :: rat) / of_nat (lineHeight m)\<rceil>]\<rparr>)"
    unfolding f2 by (simp add: c1 d1 drawLine_x_def drawLine_y_def Let_def)
  have r: "el_cssText this2 = el_cssText this" "dpr this2 = dpr this"
    "nu_styles this2 = Some (case nu_styles this of None \<Rightarrow> no_styles | Some st \<Rightarrow> st)"
    unfolding f2 by (simp_all add: d1)
  have same: "nu_canvas this' = nu_canvas this2"
    unfolding eq by (simp add: setStyle_def)
  show "nu_canvas this' =
     (let st = fst (ensureStyles el this);
          m = measured br el this;
          W = to_unsigned_long (of_nat (nuWidth m) * dpr this);
          H = to_unsigned_long (of_nat (scrollHeight el) * dpr this);
          F = numberToString br (of_nat (fontSize m) * dpr this) @ ''px'' @ '' ''
                @ computed el ''fontFamily''
      in \<lparr>cv_width = W, cv_height = H, fillStyle = s_numberColor st, textAlign = ''end'',
          font = F, transform = (1, 1),
          ops = FillRect 0 0 (of_nat W) (of_nat H) (s_numberBgColor st) #
            map (\<lambda>index. FillText (toString (index + 1))
                   (of_nat W - of_nat (nuPadding m) * dpr this * 2)
                   (of_nat (paddingTop m) * dpr this
                      + of_nat (lineHeight m) * dpr this * of_nat index
                      + (of_nat (lineHeight m) * dpr this + of_nat (fontSize m) * dpr this) / 2)
                   (s_numberColor st) F ''end'')
              [0..<nat \<lceil>(of_nat (scrollHeight el) :: rat) / of_nat (lineHeight m)\<rceil>]\<rparr>)"
    unfolding same mm st_def [symmetric] Let_def by (rule cv [unfolded Let_def])
  show "el_cssText this' = el_cssText this
           @ join '';'' (setStyle_css (measured br el this) (toDataURL br (nu_canvas this')))"
    unfolding same mm unfolding eq by (simp add: setStyle_def r)
  show "dpr this' = dpr this"
    unfolding eq by (simp add: setStyle_def r)
  show "nu_styles this' = Some (case nu_styles this of None \<Rightarrow> no_styles | Some st \<Rightarrow> st)"
    unfolding eq by (simp add: setStyle_def r)
qed

lemma alignments_map:
  "alignments (map (\<lambda>k. FillText (t k) (x k) (y k) (c k) (f k) a) ks) = replicate (length ks) a"
  by (induction ks) simp_all

lemma setStyle_fields:
  "nu_canvas (setStyle m url this) = nu_canvas this"
  "dpr (setStyle m url this) = dpr this"
  "nu_styles (setStyle m url this) = nu_styles this"
  "el_cssText (setStyle m url this) = el_cssText this @ join '';'' (setStyle_css m url)"
  by (simp_all add: setStyle_def)

lemma map_toString_upt:
  "map (\<lambda>index. toString (index + 1)) [0..<n] = map toString [1..<Suc n]"
  using map_Suc_upt [of 0 n] by (simp add: map_Suc_upt [symmetric] del: map_Suc_upt upt_Suc)

subsection \<open>The numerals of a render pass\<close>

text \<open>
  Claim C1. A render pass over a host with content height \<open>S\<close> and a measured line
  height \<open>L > 0\<close> returns, and the numerals it has painted are the decimal strings of
  \<open>1, 2, \<dots>, \<lceil>S / L\<rceil>\<close> in this order: there are \<open>\<lceil>S / L\<rceil>\<close> of them and no
  two are equal.
\<close>

theorem handleRender_numerals:
  assumes "scrollHeight el = S" and "lineHeight (measured br el this) = L" and "0 < L"
  shows "\<exists>this'. handleRender br el this = Some this'
     \<and> numerals (ops (nu_canvas this'))
         = map toString [1..<Suc (nat \<lceil>(of_nat S :: rat) / of_nat L\<rceil>)]
     \<and> length (numerals (ops (nu_canvas this'))) = nat \<lceil>(of_nat S :: rat) / of_nat L\<rceil>
     \<and> distinct (numerals (ops (nu_canvas this')))"
proof -
  from assms have "handleRender br el this \<noteq> None"
    by (simp add: render_returns)
  then obtain this' where some: "handleRender br el this = Some this'" by blast
  have "numerals (ops (nu_canvas this')) =
       map (\<lambda>index. toString (index + 1)) [0..<nat \<lceil>(of_nat S :: rat) / of_nat L\<rceil>]"
    unfolding render_this(1) [OF some] Let_def assms by (simp add: numerals_map)
  then have n: "numerals (ops (nu_canvas this')) =
      map toString [1..<Suc (nat \<lceil>(of_nat S :: rat) / of_nat L\<rceil>)]"
    by (simp only: map_toString_upt)
  have "distinct (map toString [1..<Suc (nat \<lceil>(of_nat S :: rat) / of_nat L\<rceil>)])"
    by (simp add: distinct_map inj_on_subset [OF inj_toString] del: upt_Suc)
  with some n show ?thesis by (simp del: upt_Suc)
qed

theorem handleRender_numerals_witness:
  "scrollHeight textarea = 100 \<and> lineHeight (measured px_browser textarea example_nu) = 20
   \<and> (\<exists>this'. handleRender px_browser textarea example_nu = Some this'
        \<and> numerals (ops (nu_canvas this')) = [''1'', ''2'', ''3'', ''4'', ''5''])"
proof -
  have h: "scrollHeight textarea = 100" "lineHeight (measured px_browser textarea example_nu) = 20"
    "(0::nat) < 20"
    by (simp add: textarea_def, simp add: example_measured, simp)
  have u: "map toString [Suc 0..<6] = [''1'', ''2'', ''3'', ''4'', ''5'']"
    by (simp add: upt_rec toString_digit digit_def char_of_def bit_0)
  show ?thesis
    using handleRender_numerals [OF h] h(1,2) by (auto simp: u)
qed


subsection \<open>Termination of a render pass\<close>

text \<open>
  Claim C10. A render pass does not return exactly when the measured line height is zero
  while the content height is positive: the line count \<^verbatim>\<open>Math.ceil(scrollHeight / 0)\<close>
  is then \<^verbatim>\<open>Infinity\<close> and the loop over the lines has no end. With a line height
  and a content height of zero the pass returns and has painted no numeral.
\<close>

theorem handleRender_nontermination:
  "(handleRender br el this = None)
     = (lineHeight (measured br el this) = 0 \<and> 0 < scrollHeight el)
   \<and> (0 < S \<longrightarrow> Math_ceil (js_div S 0) = Infinity)
   \<and> handleRender_loop m lh fs Infinity index t = None
   \<and> (lineHeight (measured br el this) = 0 \<and> scrollHeight el = 0 \<longrightarrow>
        (\<exists>this'. handleRender br el this = Some this' \<and> numerals (ops (nu_canvas this')) = []))"
proof -
  have A: "(handleRender br el this = None)
     = (lineHeight (measured br el this) = 0 \<and> 0 < scrollHeight el)"
    by (rule render_returns)
  have B: "0 < S \<longrightarrow> Math_ceil (js_div S 0) = Infinity"
    by (simp add: js_div_def)
  have C: "handleRender_loop m lh fs Infinity index t = None"
    by (rule loop_Infinity)
  have D: "lineHeight (measured br el this) = 0 \<and> scrollHeight el = 0 \<longrightarrow>
        (\<exists>this'. handleRender br el this = Some this' \<and> numerals (ops (nu_canvas this')) = [])"
  proof
    assume z: "lineHeight (measured br el this) = 0 \<and> scrollHeight el = 0"
    then have "handleRender br el this \<noteq> None" by (simp add: render_returns)
    then obtain this' where some: "handleRender br el this = Some this'" by blast
    have "numerals (ops (nu_canvas this')) = []"
      unfolding render_this(1) [OF some] Let_def using z by simp
    with some show "\<exists>this'. handleRender br el this = Some this' \<and> numerals (ops (nu_canvas this')) = []"
      by simp
  qed
  from A B C D show ?thesis by blast
qed

lemma collapsed_measured:
  "lineHeight (measured px_browser collapsed_textarea example_nu) = 0"
  "lineHeight (measured px_browser empty_textarea example_nu) = 0"
  by (simp_all add: measured_def getMeasure_def createElement_div_def set_padding_def
        px_browser_def collapsed_textarea_def empty_textarea_def px_def parseInt_def is_digit_def
        digit_val_def Let_def)

theorem handleRender_nontermination_witness:
  "lineHeight (measured px_browser collapsed_textarea example_nu) = 0
   \<and> scrollHeight collapsed_textarea = 100
   \<and> handleRender px_browser collapsed_textarea example_nu = None
   \<and> Math_ceil (js_div 100 0) = Infinity
   \<and> lineHeight (measured px_browser empty_textarea example_nu) = 0
   \<and> scrollHeight empty_textarea = 0
   \<and> handleRender px_browser empty_textarea example_nu \<noteq> None
   \<and> handleRender px_browser textarea example_nu \<noteq> None"
proof -
  have s: "scrollHeight collapsed_textarea = 100" "scrollHeight empty_textarea = 0"
    "scrollHeight textarea = 100"
    by (simp_all add: collapsed_textarea_def empty_textarea_def textarea_def)
  have l: "lineHeight (measured px_browser textarea example_nu) = 20"
    by (simp add: example_measured)
  show ?thesis
    using handleRender_nontermination [of px_browser collapsed_textarea example_nu 100]
      handleRender_nontermination [of px_browser empty_textarea example_nu 100]
      handleRender_nontermination [of px_browser textarea example_nu 100]
      collapsed_measured s l
    by auto
qed

subsection \<open>The stages of getMeasure\<close>

text \<open>
  Claim C3. \<^verbatim>\<open>getMeasure\<close> reads its six metrics from the probe in five stages:
  (1) with width and margin zero and the top and right padding of the host, the height is
  \<open>paddingTop\<close> and the width is \<open>paddingRight\<close>; (2) with the right padding replaced
  by the configured gutter padding, the width is \<open>nuPadding\<close>; (3) with all padding
  zero and the width set to the configured gutter width, the width is \<open>nuWidth\<close>;
  (4) with a non-breaking space as content, the height is \<open>lineHeight\<close>; (5) with the
  line height forced to 1, the height is \<open>fontSize\<close>.
\<close>

theorem getMeasure_stages:
  "getMeasure br css st =
     (let stage1 = \<lparr>box_width = ''0'', box_margin = ''0'', box_paddingTop = css ''paddingTop'',
            box_paddingRight = css ''paddingRight'', box_paddingBottom = ''0'',
            box_paddingLeft = ''0'', box_fontFamily = css ''fontFamily'',
            box_fontSize = css ''fontSize'', box_lineHeight = css ''lineHeight'',
            box_innerHTML = []\<rparr>;
          stage2 = stage1\<lparr>box_paddingRight := s_numberPadding st\<rparr>;
          stage3 = stage2\<lparr>box_paddingTop := ''0'', box_paddingRight := ''0'',
            box_width := s_numberWidth st\<rparr>;
          stage4 = stage3\<lparr>box_innerHTML := ''&nbsp;''\<rparr>;
          stage5 = stage4\<lparr>box_lineHeight := ''1''\<rparr>
      in \<lparr>lineHeight = clientHeight br stage4, fontSize = clientHeight br stage5,
          paddingTop = clientHeight br stage1, paddingRight = clientWidth br stage1,
          nuWidth = clientWidth br stage3, nuPadding = clientWidth br stage2\<rparr>)"
  by (simp add: getMeasure_def createElement_div_def set_padding_def)

theorem getMeasure_stages_witness:
  "getMeasure px_browser textarea_css
     \<lparr>s_numberPadding = ''8px'', s_numberWidth = ''64px'', s_numberColor = ''#666'',
      s_numberBgColor = ''#f4f4f4''\<rparr>
   = \<lparr>lineHeight = 20, fontSize = 16, paddingTop = 4, paddingRight = 6, nuWidth = 64,
      nuPadding = 8\<rparr>"
  unfolding getMeasure_stages
  by (simp add: px_browser_def textarea_css_def px_values)

subsection \<open>The configuration of a render pass\<close>

text \<open>
  Claim C8. Each of the four configuration values of a render pass is the override passed
  when the instance was attached, when there is one; otherwise it is the current value of
  the data attribute of the host, with the defaults \<open>64px\<close> (gutter width), \<open>8px\<close>
  (gutter padding), \<open>#666\<close> (numeral colour) and \<open>#f4f4f4\<close> (gutter background) for
  an attribute that is missing or empty. The pass measures and paints with these values.
\<close>

theorem ensureStyles_resolves:
  "(let overrides = (case nu_styles this of None \<Rightarrow> no_styles | Some st \<Rightarrow> st);
        attr = (\<lambda>name defaultValue.
           case attrs el name of None \<Rightarrow> defaultValue
           | Some v \<Rightarrow> if v = [] then defaultValue else v);
        st = fst (ensureStyles el this)
    in s_numberWidth st
         = (case numberWidth overrides of Some v \<Rightarrow> v | None \<Rightarrow> attr ''data-nut-width'' ''64px'')
     \<and> s_numberPadding st
         = (case numberPadding overrides of Some v \<Rightarrow> v
            | None \<Rightarrow> attr ''data-nut-padding'' ''8px'')
     \<and> s_numberColor st
         = (case numberColor overrides of Some v \<Rightarrow> v | None \<Rightarrow> attr ''data-nut-color'' ''#666'')
     \<and> s_numberBgColor st
         = (case numberBgColor overrides of Some v \<Rightarrow> v
            | None \<Rightarrow> attr ''data-nut-bg-color'' ''#f4f4f4'')
     \<and> measured br el this = getMeasure br (computed el) st
     \<and> (\<forall>this'. handleRender br el this = Some this' \<longrightarrow>
           fillStyle (nu_canvas this') = s_numberColor st
           \<and> take 1 (ops (nu_canvas this'))
               = [FillRect 0 0 (of_nat (cv_width (nu_canvas this')))
                    (of_nat (cv_height (nu_canvas this'))) (s_numberBgColor st)]))"
proof -
  have A: "\<And>this'. handleRender br el this = Some this' \<Longrightarrow>
           fillStyle (nu_canvas this') = s_numberColor (fst (ensureStyles el this))
           \<and> take 1 (ops (nu_canvas this'))
               = [FillRect 0 0 (of_nat (cv_width (nu_canvas this')))
                    (of_nat (cv_height (nu_canvas this'))) (s_numberBgColor (fst (ensureStyles el this)))]"
    by (simp add: render_this(1) Let_def)
  show ?thesis
    unfolding Let_def
    by (intro conjI allI impI A)
       (simp_all add: ensureStyles_def getAttr_def spread_def measured_def Let_def
          split: option.splits)
qed

lemma styled_config:
  "fst (ensureStyles styled_textarea styled_nu) =
     \<lparr>s_numberPadding = ''12px'', s_numberWidth = ''80px'', s_numberColor = ''#666'',
      s_numberBgColor = ''white''\<rparr>"
  by (simp add: ensureStyles_def styled_textarea_def styled_nu_def new_Nu_def textarea_def
        getAttr_def spread_def Let_def)

theorem ensureStyles_resolves_witness:
  "s_numberWidth (fst (ensureStyles styled_textarea styled_nu)) = ''80px''
   \<and> s_numberPadding (fst (ensureStyles styled_textarea styled_nu)) = ''12px''
   \<and> s_numberColor (fst (ensureStyles styled_textarea styled_nu)) = ''#666''
   \<and> s_numberBgColor (fst (ensureStyles styled_textarea styled_nu)) = ''white''
   \<and> (\<exists>this'. handleRender px_browser styled_textarea styled_nu = Some this'
          \<and> fillStyle (nu_canvas this') = ''#666'')"
proof -
  have m: "lineHeight (measured px_browser styled_textarea styled_nu) = 20"
    by (simp add: measured_def styled_config)
       (simp add: getMeasure_def createElement_div_def set_padding_def px_browser_def
          styled_textarea_def textarea_def textarea_css_def px_values Let_def)
  have "handleRender px_browser styled_textarea styled_nu \<noteq> None"
    by (simp add: render_returns m)
  then obtain this' where r: "handleRender px_browser styled_textarea styled_nu = Some this'"
    by blast
  show ?thesis
    using ensureStyles_resolves [of styled_nu styled_textarea px_browser] r
    by (simp add: Let_def styled_config)
qed

subsection \<open>StyleMutation\<close>

lemma fold_styleDiff_step:
  "fold (styleDiff_step style) ps (r, prev) =
     (r \<or> (\<exists>p\<in>set ps. prev p \<noteq> Some (style p)),
      (\<lambda>p. if p \<in> set ps then Some (style p) else prev p))"
proof (induction ps arbitrary: r prev)
  case Nil
  then show ?case by simp
next
  case (Cons q ps)
  show ?case
  proof (cases "prev q = Some (style q)")
    case True
    then have "styleDiff_step style q (r, prev) = (r, prev)"
      by (simp add: styleDiff_step_def loose_neq_def)
    then show ?thesis using True by (auto simp: Cons.IH)
  next
    case False
    then have "styleDiff_step style q (r, prev) = (True, prev(q \<mapsto> style q))"
      by (simp add: styleDiff_step_def loose_neq_def)
    then show ?thesis using False by (auto simp: Cons.IH)
  qed
qed

lemma styleDiff_result:
  "fst (styleDiff sm style) = (\<exists>p\<in>set mutationStyleProps. prevStyle sm p \<noteq> Some (style p))"
  by (simp add: styleDiff_def fold_styleDiff_step)

lemma styleDiff_snapshot:
  "prevStyle (snd (styleDiff sm style)) =
     (\<lambda>p. if p \<in> set mutationStyleProps then Some (style p) else prevStyle sm p)"
  by (simp add: styleDiff_def fold_styleDiff_step)

lemma fold_set_prev:
  "fold (\<lambda>prop prev. prev(prop \<mapsto> style prop)) ps prev =
     (\<lambda>p. if p \<in> set ps then Some (style p) else prev p)"
  by (induction ps arbitrary: prev) auto

lemma set_StyleMutation_prevStyle:
  "prevStyle (set_StyleMutation sm style a) =
     (\<lambda>p. if p \<in> set mutationStyleProps then Some (style p) else prevStyle sm p)"
  by (simp add: set_StyleMutation_def fold_set_prev)

text \<open>
  Claim C6. \<^verbatim>\<open>styleDiff\<close> compares the five properties \<open>paddingTop\<close>,
  \<open>paddingRight\<close>, \<open>lineHeight\<close>, \<open>fontSize\<close> and \<open>fontFamily\<close>, and no other, with
  \<^verbatim>\<open>!=\<close> against the snapshot; it returns true when one of them differs, and the
  snapshot then holds the current values. After \<^verbatim>\<open>set\<close> it returns false for the same
  style, true for a style in which a tracked property has changed, and false again after
  \<^verbatim>\<open>set\<close> with the new style.
\<close>

theorem styleDiff_tracks:
  "fst (styleDiff sm style)
     = (\<exists>prop\<in>{''paddingTop'', ''paddingRight'', ''lineHeight'', ''fontSize'', ''fontFamily''}.
          loose_neq (style prop) (prevStyle sm prop))
   \<and> prevStyle (snd (styleDiff sm style))
       = (\<lambda>prop. if prop \<in> {''paddingTop'', ''paddingRight'', ''lineHeight'', ''fontSize'',
                              ''fontFamily''}
                 then Some (style prop) else prevStyle sm prop)
   \<and> \<not> fst (styleDiff (set_StyleMutation sm style el_attrs) style)
   \<and> ((\<exists>prop\<in>set mutationStyleProps. style' prop \<noteq> style prop) \<longrightarrow>
        fst (styleDiff (set_StyleMutation sm style el_attrs) style'))
   \<and> ((\<forall>prop\<in>set mutationStyleProps. style' prop = style prop) \<longrightarrow>
        \<not> fst (styleDiff (set_StyleMutation sm style el_attrs) style'))
   \<and> \<not> fst (styleDiff (set_StyleMutation
               (snd (styleDiff (set_StyleMutation sm style el_attrs) style')) style' el_attrs')
             style')"
proof -
  have A: "fst (styleDiff sm style)
     = (\<exists>prop\<in>{''paddingTop'', ''paddingRight'', ''lineHeight'', ''fontSize'', ''fontFamily''}.
          loose_neq (style prop) (prevStyle sm prop))"
    by (simp add: styleDiff_result mutationStyleProps_def loose_neq_def)
  have B: "prevStyle (snd (styleDiff sm style))
       = (\<lambda>prop. if prop \<in> {''paddingTop'', ''paddingRight'', ''lineHeight'', ''fontSize'',
                              ''fontFamily''}
                 then Some (style prop) else prevStyle sm prop)"
    by (simp add: styleDiff_snapshot mutationStyleProps_def)
  have C: "\<And>sm style el_attrs. \<not> fst (styleDiff (set_StyleMutation sm style el_attrs) style)"
    by (simp add: styleDiff_result set_StyleMutation_prevStyle)
  have D: "(\<exists>prop\<in>set mutationStyleProps. style' prop \<noteq> style prop) \<longrightarrow>
        fst (styleDiff (set_StyleMutation sm style el_attrs) style')"
    by (simp add: styleDiff_result set_StyleMutation_prevStyle) metis
  have E: "(\<forall>prop\<in>set mutationStyleProps. style' prop = style prop) \<longrightarrow>
        \<not> fst (styleDiff (set_StyleMutation sm style el_attrs) style')"
    by (simp add: styleDiff_result set_StyleMutation_prevStyle)
  from A B C D E show ?thesis by blast
qed

theorem styleDiff_tracks_witness:
  "\<not> fst (styleDiff (set_StyleMutation new_StyleMutation textarea_css Map.empty) textarea_css)
   \<and> fst (styleDiff (set_StyleMutation new_StyleMutation textarea_css Map.empty)
            (textarea_css(''fontSize'' := ''18px'')))
   \<and> \<not> fst (styleDiff (set_StyleMutation new_StyleMutation textarea_css Map.empty)
              (textarea_css(''color'' := ''red'')))
   \<and> fst (styleDiff new_StyleMutation textarea_css)"
proof -
  have c: "\<exists>prop\<in>set mutationStyleProps.
      (textarea_css(''fontSize'' := ''18px'')) prop \<noteq> textarea_css prop"
    by (simp add: mutationStyleProps_def textarea_css_def)
  have u: "\<forall>prop\<in>set mutationStyleProps.
      (textarea_css(''color'' := ''red'')) prop = textarea_css prop"
    by (simp add: mutationStyleProps_def)
  have n: "loose_neq (textarea_css ''paddingTop'') (prevStyle new_StyleMutation ''paddingTop'')"
    by (simp add: loose_neq_def new_StyleMutation_def)
  show ?thesis
    using styleDiff_tracks [of new_StyleMutation textarea_css Map.empty
        "textarea_css(''fontSize'' := ''18px'')"]
      styleDiff_tracks [of new_StyleMutation textarea_css Map.empty
        "textarea_css(''color'' := ''red'')"] c u n
    by blast
qed

subsection \<open>The debounced render trigger\<close>

lemma render_restarts:
  assumes "quiet s \<or> armed s d"
  shows "armed (render func s) (now s + 20) \<and> ctx (render func s) = ctx s
           \<and> now (render func s) = now s"
  using assms
  by (auto simp: render_def debounce_def clearTimeout_def setTimeout_def quiet_def armed_def
        Let_def split: option.splits)

lemma advance_quiet:
  assumes "quiet s"
  shows "quiet (advance func t s) \<and> ctx (advance func t s) = ctx s
           \<and> now (advance func t s) = max (now s) t"
  using assms by (simp add: advance_def quiet_def Let_def)

lemma advance_early:
  assumes "armed s d" "t < d"
  shows "armed (advance func t s) d \<and> ctx (advance func t s) = ctx s
           \<and> now (advance func t s) = max (now s) t"
  using assms by (auto simp: advance_def armed_def Let_def split: option.splits)

lemma advance_due:
  assumes "armed s d" "d \<le> t"
  shows "quiet (advance func t s) \<and> ctx (advance func t s) = func (ctx s)
           \<and> now (advance func t s) = max (now s) t"
  using assms
  by (auto simp: advance_def armed_def quiet_def callback_def Let_def split: option.splits)

lemma requests_burst:
  "armed s (t0 + 20) \<Longrightarrow> now s = t0 \<Longrightarrow> burst 20 (t0 # ts) \<Longrightarrow>
     armed (requests func ts s) (last (t0 # ts) + 20)
     \<and> ctx (requests func ts s) = ctx s
     \<and> now (requests func ts s) = last (t0 # ts)"
proof (induction ts arbitrary: s t0)
  case Nil
  then show ?case by simp
next
  case (Cons u ts)
  from Cons.prems have le: "t0 \<le> u" and lt: "u < t0 + 20" and w: "burst 20 (u # ts)"
    by simp_all
  let ?a = "advance func u s"
  have a: "armed ?a (t0 + 20)" "ctx ?a = ctx s" "now ?a = u"
    using advance_early [OF Cons.prems(1) lt, of func] Cons.prems(2) le by simp_all
  let ?r = "render func ?a"
  have r: "armed ?r (u + 20)" "ctx ?r = ctx s" "now ?r = u"
    using render_restarts [of ?a "t0 + 20" func] a by simp_all
  show ?case
    using Cons.IH [OF r(1) r(3) w] r(2) by simp
qed

lemma requests_spaced:
  "armed s (t0 + 20) \<Longrightarrow> now s = t0 \<Longrightarrow> spaced 20 (t0 # ts) \<Longrightarrow>
     armed (requests func ts s) (last (t0 # ts) + 20)
     \<and> ctx (requests func ts s) = (func ^^ length ts) (ctx s)
     \<and> now (requests func ts s) = last (t0 # ts)"
proof (induction ts arbitrary: s t0)
  case Nil
  then show ?case by simp
next
  case (Cons u ts)
  from Cons.prems have lt: "t0 + 20 < u" and w: "spaced 20 (u # ts)"
    by simp_all
  let ?a = "advance func u s"
  have a: "quiet ?a" "ctx ?a = func (ctx s)" "now ?a = u"
    using advance_due [OF Cons.prems(1), of u func] Cons.prems(2) lt by simp_all
  let ?r = "render func ?a"
  have r: "armed ?r (u + 20)" "ctx ?r = func (ctx s)" "now ?r = u"
    using render_restarts [of ?a 0 func] a by simp_all
  show ?case
    using Cons.IH [OF r(1) r(3) w] r(2) by (simp add: funpow_swap1)
qed

lemma first_request:
  "armed (render func (advance func t (idle w))) (t + 20)
   \<and> ctx (render func (advance func t (idle w))) = w
   \<and> now (render func (advance func t (idle w))) = t"
proof -
  have q: "quiet (idle w)" by (simp add: quiet_def idle_def)
  have a: "quiet (advance func t (idle w))" "ctx (advance func t (idle w)) = w"
    "now (advance func t (idle w)) = t"
    using advance_quiet [OF q, of func t] by (simp_all add: idle_def)
  show ?thesis using render_restarts [of "advance func t (idle w)" 0 func] a by simp
qed

text \<open>
  Claim C2. A call of the debounced trigger leaves exactly one timer, due 20 time units
  after the call, whether or not a timer was pending: a pending one is cancelled. Hence,
  of one or more requests that each come less than 20 time units after the one before, the
  render body has not run before 20 time units after the last request have passed, and
  has run exactly once from then on; of requests that each come more than 20 time units
  after the one before, it has run once for each request.
\<close>

theorem render_debounced:
  assumes "ts \<noteq> []"
  shows "(\<forall>s d. quiet s \<or> armed s d \<longrightarrow>
            armed (render func s) (now s + 20) \<and> ctx (render func s) = ctx s)
    \<and> (burst 20 ts \<longrightarrow>
          (\<forall>T. T < last ts + 20 \<longrightarrow> ctx (advance func T (requests func ts (idle w))) = w)
        \<and> (\<forall>T. last ts + 20 \<le> T \<longrightarrow>
              ctx (advance func T (requests func ts (idle w))) = func w))
    \<and> (spaced 20 ts \<longrightarrow>
          (\<forall>T. last ts + 20 \<le> T \<longrightarrow>
             ctx (advance func T (requests func ts (idle w))) = (func ^^ length ts) w))"
proof -
  from assms obtain t ts' where ts: "ts = t # ts'" by (cases ts) auto
  let ?s1 = "render func (advance func t (idle w))"
  have s1: "armed ?s1 (t + 20)" "ctx ?s1 = w" "now ?s1 = t"
    using first_request [of func t w] by simp_all
  have req: "requests func ts (idle w) = requests func ts' ?s1"
    by (simp add: ts)
  have A: "\<forall>s d. quiet s \<or> armed s d \<longrightarrow>
      armed (render func s) (now s + 20) \<and> ctx (render func s) = ctx s"
    using render_restarts by blast
  have B: "burst 20 ts \<longrightarrow>
          (\<forall>T. T < last ts + 20 \<longrightarrow> ctx (advance func T (requests func ts (idle w))) = w)
        \<and> (\<forall>T. last ts + 20 \<le> T \<longrightarrow>
              ctx (advance func T (requests func ts (idle w))) = func w)"
  proof
    assume "burst 20 ts"
    then have w: "burst 20 (t # ts')" by (simp add: ts)
    have f: "armed (requests func ts (idle w)) (last ts + 20)"
      "ctx (requests func ts (idle w)) = w"
      using requests_burst [OF s1(1) s1(3) w, of func] s1(2) unfolding req ts by simp_all
    show "(\<forall>T. T < last ts + 20 \<longrightarrow> ctx (advance func T (requests func ts (idle w))) = w)
        \<and> (\<forall>T. last ts + 20 \<le> T \<longrightarrow>
              ctx (advance func T (requests func ts (idle w))) = func w)"
      using advance_early [OF f(1), of _ func] advance_due [OF f(1), of _ func] f(2) by simp
  qed
  have C: "spaced 20 ts \<longrightarrow>
          (\<forall>T. last ts + 20 \<le> T \<longrightarrow>
             ctx (advance func T (requests func ts (idle w))) = (func ^^ length ts) w)"
  proof
    assume "spaced 20 ts"
    then have w: "spaced 20 (t # ts')" by (simp add: ts)
    have f: "armed (requests func ts (idle w)) (last ts + 20)"
      "ctx (requests func ts (idle w)) = (func ^^ length ts') w"
      using requests_spaced [OF s1(1) s1(3) w, of func] s1(2) unfolding req ts by simp_all
    show "\<forall>T. last ts + 20 \<le> T \<longrightarrow>
             ctx (advance func T (requests func ts (idle w))) = (func ^^ length ts) w"
      using advance_due [OF f(1), of _ func] f(2) by (simp add: ts)
  qed
  from A B C show ?thesis by blast
qed

theorem render_debounced_witness:
  "[0, 5, 10] \<noteq> ([] :: nat list) \<and> burst 20 [0, 5, 10] \<and> spaced 20 [0, 25, 50]
   \<and> ctx (advance Suc 29 (requests Suc [0, 5, 10] (idle (0::nat)))) = 0
   \<and> ctx (advance Suc 30 (requests Suc [0, 5, 10] (idle (0::nat)))) = 1
   \<and> ctx (advance Suc 70 (requests Suc [0, 25, 50] (idle (0::nat)))) = 3"
proof -
  have ne: "[0, 5, 10] \<noteq> ([] :: nat list)" "[0, 25, 50] \<noteq> ([] :: nat list)" by simp_all
  have w: "burst 20 [0, 5, 10]" and a: "spaced 20 [0, 25, 50]" by simp_all
  show ?thesis
    using render_debounced [OF ne(1), of Suc 0] render_debounced [OF ne(2), of Suc 0] w a
    by simp
qed

subsection \<open>The example page, rendered\<close>

lemma example_nu_fields:
  "dpr example_nu = 2" "el_cssText example_nu = []"
  by (simp_all add: example_nu_def new_Nu_def Let_def)

lemma example_returns: "handleRender px_browser textarea example_nu \<noteq> None"
  by (simp add: render_returns example_measured)

lemma example_canvas:
  assumes "handleRender px_browser textarea example_nu = Some this'"
  shows "nu_canvas this' =
    \<lparr>cv_width = 128, cv_height = 200, fillStyle = ''#666'', textAlign = ''end'',
     font = ''32px monospace'', transform = (1, 1),
     ops = [FillRect 0 0 128 200 ''#f4f4f4'',
            FillText ''1'' 96 44 ''#666'' ''32px monospace'' ''end'',
            FillText ''2'' 96 84 ''#666'' ''32px monospace'' ''end'',
            FillText ''3'' 96 124 ''#666'' ''32px monospace'' ''end'',
            FillText ''4'' 96 164 ''#666'' ''32px monospace'' ''end'',
            FillText ''5'' 96 204 ''#666'' ''32px monospace'' ''end'']\<rparr>"
proof -
  have u: "[0..<5] = [0, 1, 2, 3, 4]" by (simp add: upt_rec)
  have w: "to_unsigned_long 128 = 128" "to_unsigned_long 200 = 200"
    by (simp_all add: to_unsigned_long_def)
  have f: "numberToString px_browser 32 = ''32''"
    by (simp add: px_browser_def toString_small)
  have t: "toString (Suc 0) = ''1''" "toString (Suc (Suc 0)) = ''2''"
    using toString_small(1,2) by (simp_all add: numeral_2_eq_2)
  have c: "computed textarea ''fontFamily'' = ''monospace''" "scrollHeight textarea = 100"
    by (simp_all add: textarea_def textarea_css_def)
  show ?thesis
    unfolding render_this(1) [OF assms] Let_def example_measured example_styles
      example_nu_fields c
    by (simp add: u w f t toString_small)
qed

lemma example_painted:
  "painted px_browser textarea example_nu =
     [FillRect 0 0 128 200 ''#f4f4f4'',
      FillText ''1'' 96 44 ''#666'' ''32px monospace'' ''end'',
      FillText ''2'' 96 84 ''#666'' ''32px monospace'' ''end'',
      FillText ''3'' 96 124 ''#666'' ''32px monospace'' ''end'',
      FillText ''4'' 96 164 ''#666'' ''32px monospace'' ''end'',
      FillText ''5'' 96 204 ''#666'' ''32px monospace'' ''end'']"
proof -
  from example_returns obtain this' where
    some: "handleRender px_browser textarea example_nu = Some this'" by blast
  show ?thesis
    unfolding painted_def some by (simp add: example_canvas [OF some])
qed

lemma example_dataURL:
  assumes "handleRender px_browser textarea example_nu = Some this'"
  shows "toDataURL px_browser (nu_canvas this') = ''data:image/png;base64,12345''"
  unfolding example_canvas [OF assms] by (simp add: px_browser_def)

lemma example_written:
  "written px_browser textarea example_nu =
     ''padding-left: 70px;box-sizing: border-box;background-repeat: no-repeat;background-attachment: local;background-size: 64px auto;background-image: url(data:image/png;base64,12345)''"
proof -
  from example_returns obtain this' where
    some: "handleRender px_browser textarea example_nu = Some this'" by blast
  show ?thesis
    unfolding written_def some
    by (simp add: render_this(2) [OF some] example_nu_fields example_dataURL [OF some]
          example_measured setStyle_css_def toString_small)
qed

subsection \<open>Where the numerals are painted\<close>

text \<open>
  Claim C5, as the specification words it, fails on a display whose device pixel ratio is
  not 1: the second numeral of the example page is painted at the baseline 84, and the
  formula with the measured line height and font size gives 46.
\<close>

theorem drawLine_baseline_counterexample:
  "snd (positions (painted px_browser textarea example_nu) ! 1)
     \<noteq> spec_baseline (dpr example_nu) (measured px_browser textarea example_nu) 1"
  by (simp add: example_painted example_measured example_nu_fields spec_baseline_def)

text \<open>
  Claim C5, amended. In every render pass that returns, the numeral \<open>index + 1\<close> of each
  line \<open>index\<close> (from 0) is painted with the text alignment \<open>end\<close> at the horizontal
  offset (raster width - gutter padding * dpr * 2) and at the baseline
  (topPadding * dpr + lineHeightDPR * index + (lineHeightDPR + fontSizeDPR) / 2), where
  lineHeightDPR and fontSizeDPR are the measured line height and font size multiplied by
  the device pixel ratio. The box of height fontSizeDPR that stands on this baseline has
  as much room above it as below it in its line.
\<close>

theorem drawLine_positions:
  assumes "handleRender br el this = Some this'"
  shows "(let m = measured br el this;
              lineHeightDPR = of_nat (lineHeight m) * dpr this;
              fontSizeDPR = of_nat (fontSize m) * dpr this;
              x = of_nat (cv_width (nu_canvas this')) - of_nat (nuPadding m) * dpr this * 2;
              top = (\<lambda>index. of_nat (paddingTop m) * dpr this + lineHeightDPR * of_nat index);
              y = (\<lambda>index. top index + (lineHeightDPR + fontSizeDPR) / 2);
              indices = [0..<nat \<lceil>(of_nat (scrollHeight el) :: rat) / of_nat (lineHeight m)\<rceil>]
          in numerals (ops (nu_canvas this')) = map (\<lambda>index. toString (index + 1)) indices
           \<and> positions (ops (nu_canvas this')) = map (\<lambda>index. (x, y index)) indices
           \<and> alignments (ops (nu_canvas this')) = replicate (length indices) ''end''
           \<and> (\<forall>index. (y index - fontSizeDPR) - top index
                        = (top index + lineHeightDPR) - y index))"
proof -
  have c: "\<And>a b c :: rat. (a + (b + c) / 2 - c) - a = (a + b) - (a + (b + c) / 2)"
    by (simp add: field_simps)
  show ?thesis
    unfolding render_this(1) [OF assms] Let_def
    by (simp add: numerals_map positions_map alignments_map c)
qed

theorem drawLine_positions_witness:
  "\<exists>this'. handleRender px_browser textarea example_nu = Some this'
     \<and> positions (ops (nu_canvas this'))
           = [(96, 44), (96, 84), (96, 124), (96, 164), (96, 204)]
     \<and> numerals (ops (nu_canvas this')) = [''1'', ''2'', ''3'', ''4'', ''5'']
     \<and> alignments (ops (nu_canvas this')) = [''end'', ''end'', ''end'', ''end'', ''end'']"
proof -
  have "positions (ops (nu_canvas this'))
           = [(96, 44), (96, 84), (96, 124), (96, 164), (96, 204)]
         \<and> numerals (ops (nu_canvas this')) = [''1'', ''2'', ''3'', ''4'', ''5'']
         \<and> alignments (ops (nu_canvas this')) = [''end'', ''end'', ''end'', ''end'', ''end'']"
    if some: "handleRender px_browser textarea example_nu = Some this'" for this'
  proof -
    have u: "[0..<5] = [0, 1, 2, 3, 4]" by (simp add: upt_rec)
    have t: "toString (Suc 0) = ''1''" "toString (Suc (Suc 0)) = ''2''"
      using toString_small(1,2) by (simp_all add: numeral_2_eq_2)
    have w: "cv_width (nu_canvas this') = 128" "scrollHeight textarea = 100"
      by (simp_all add: example_canvas [OF some] textarea_def)
    show ?thesis
      using drawLine_positions [OF some]
      unfolding Let_def example_measured example_nu_fields w
      by (simp add: u t toString_small)
  qed
  then show ?thesis using example_returns by blast
qed

subsection \<open>The style written to the host\<close>

text \<open>
  Claim C4, as the specification words it, fails: the background that a render pass
  applies is not fixed to the viewport. The pass over the example page appends the
  declaration \<open>background-attachment: local\<close>, and no declaration
  \<open>background-attachment: fixed\<close>.
\<close>

theorem setStyle_attachment_counterexample:
  "written px_browser textarea example_nu =
     ''padding-left: 70px;box-sizing: border-box;background-repeat: no-repeat;background-attachment: local;background-size: 64px auto;background-image: url(data:image/png;base64,12345)''
   \<and> contains (written px_browser textarea example_nu) ''background-attachment: local''
   \<and> \<not> contains (written px_browser textarea example_nu) ''background-attachment: fixed''"
  unfolding example_written by simp

text \<open>
  Claim C4, amended. Every render pass that returns appends to the inline style of the
  host, after the left padding, the declarations \<open>box-sizing: border-box\<close>,
  \<open>background-repeat: no-repeat\<close>, \<open>background-attachment: local\<close> (the image scrolls
  with the content of the host), \<open>background-size\<close> with the measured gutter width in
  pixels and \<open>auto\<close>, and \<open>background-image\<close> with the export of the canvas just
  painted.
\<close>

theorem setStyle_background:
  assumes "handleRender br el this = Some this'"
  shows "\<exists>paddingLeft. el_cssText this' = el_cssText this @ paddingLeft
     @ '';box-sizing: border-box;background-repeat: no-repeat;background-attachment: local''
     @ '';background-size: '' @ toString (nuWidth (measured br el this)) @ ''px auto''
     @ '';background-image: url('' @ toDataURL br (nu_canvas this') @ '')''"
  unfolding render_this(2) [OF assms] by (simp add: setStyle_css_def)

theorem setStyle_background_witness:
  "\<exists>this' paddingLeft. handleRender px_browser textarea example_nu = Some this'
     \<and> el_cssText this' = paddingLeft
           @ '';box-sizing: border-box;background-repeat: no-repeat;background-attachment: local''
           @ '';background-size: 64px auto''
           @ '';background-image: url(data:image/png;base64,12345)''"
proof -
  have "\<exists>paddingLeft. el_cssText this' = paddingLeft
           @ '';box-sizing: border-box;background-repeat: no-repeat;background-attachment: local''
           @ '';background-size: 64px auto''
           @ '';background-image: url(data:image/png;base64,12345)''"
    if some: "handleRender px_browser textarea example_nu = Some this'" for this'
    using setStyle_background [OF some]
    unfolding example_dataURL [OF some] example_measured example_nu_fields
    by (simp add: toString_small)
  then show ?thesis using example_returns by blast
qed

text \<open>
  Claim C7. Every render pass, unless it is the pass without end (a measured line height
  of zero with a positive content height), returns, and has then appended to the inline
  style of the host the declaration \<open>padding-left\<close> whose value, in pixels, is the
  decimal numeral of the measured gutter width plus the measured right padding of the
  host.
\<close>

theorem setStyle_paddingLeft:
  assumes "\<not> (lineHeight (measured br el this) = 0 \<and> 0 < scrollHeight el)"
  shows "(let m = measured br el this;
              value = toString (nuWidth m + paddingRight m)
          in (\<exists>this' rest. handleRender br el this = Some this'
                \<and> el_cssText this' = el_cssText this @ ''padding-left: '' @ value @ ''px;'' @ rest)
             \<and> parseInt value = nuWidth m + paddingRight m)"
proof -
  from assms have "handleRender br el this \<noteq> None"
    unfolding render_returns .
  then obtain this' where some: "handleRender br el this = Some this'" by blast
  have "\<exists>rest. el_cssText this' = el_cssText this @ ''padding-left: ''
          @ toString (nuWidth (measured br el this) + paddingRight (measured br el this))
          @ ''px;'' @ rest"
    unfolding render_this(2) [OF some] by (simp add: setStyle_css_def)
  with some show ?thesis
    unfolding Let_def by (simp add: parseInt_toString)
qed

theorem setStyle_paddingLeft_witness:
  "\<not> (lineHeight (measured px_browser textarea example_nu) = 0 \<and> 0 < scrollHeight textarea)
   \<and> (\<exists>this' rest. handleRender px_browser textarea example_nu = Some this'
        \<and> el_cssText this' = ''padding-left: 70px;'' @ rest)
   \<and> nuWidth (measured px_browser textarea example_nu) = 64
   \<and> paddingRight (measured px_browser textarea example_nu) = 6"
proof -
  have h: "\<not> (lineHeight (measured px_browser textarea example_nu) = 0
              \<and> 0 < scrollHeight textarea)"
    by (simp add: example_measured)
  have "\<exists>this' rest. handleRender px_browser textarea example_nu = Some this'
        \<and> el_cssText this' = ''padding-left: 70px;'' @ rest"
    using setStyle_paddingLeft [OF h]
    unfolding Let_def example_measured example_nu_fields
    by (simp add: toString_small)
  with h show ?thesis by (simp add: example_measured)
qed

subsection \<open>Rendering twice\<close>

lemma measured_cong:
  assumes "nu_styles this1 = Some (case nu_styles this of None \<Rightarrow> no_styles | Some st \<Rightarrow> st)"
  shows "fst (ensureStyles el this1) = fst (ensureStyles el this)"
    and "measured br el this1 = measured br el this"
  using assms by (simp_all add: measured_def ensureStyles_def Let_def split: option.splits)

text \<open>
  Claim C9. When a render pass has returned and the computed style, the attributes and the
  content height of the host are as they were, a second pass returns as well, leaves the
  same raster, and exports the same image.
\<close>

theorem handleRender_idempotent:
  assumes "handleRender br el this = Some this1"
  shows "\<exists>this2. handleRender br el this1 = Some this2
           \<and> nu_canvas this2 = nu_canvas this1
           \<and> toDataURL br (nu_canvas this2) = toDataURL br (nu_canvas this1)
           \<and> written br el this1 = written br el this"
proof -
  have st: "nu_styles this1 = Some (case nu_styles this of None \<Rightarrow> no_styles | Some st \<Rightarrow> st)"
    and d: "dpr this1 = dpr this"
    using render_this(3,4) [OF assms] by simp_all
  have m: "measured br el this1 = measured br el this"
    and e: "fst (ensureStyles el this1) = fst (ensureStyles el this)"
    using measured_cong [OF st] by simp_all
  have "handleRender br el this \<noteq> None" using assms by simp
  then have "handleRender br el this1 \<noteq> None"
    unfolding render_returns m .
  then obtain this2 where some: "handleRender br el this1 = Some this2" by blast
  have c: "nu_canvas this2 = nu_canvas this1"
    unfolding render_this(1) [OF some] render_this(1) [OF assms] m e d ..
  have w: "written br el this1 = written br el this"
    unfolding written_def some assms
    by (simp add: render_this(2) [OF some] render_this(2) [OF assms] m c)
  from some c w show ?thesis by simp
qed

theorem handleRender_idempotent_witness:
  "\<exists>this1 this2. handleRender px_browser textarea example_nu = Some this1
     \<and> handleRender px_browser textarea this1 = Some this2
     \<and> nu_canvas this2 = nu_canvas this1
     \<and> toDataURL px_browser (nu_canvas this2) = ''data:image/png;base64,12345''"
proof -
  have "\<exists>this2. handleRender px_browser textarea this1 = Some this2
           \<and> nu_canvas this2 = nu_canvas this1
           \<and> toDataURL px_browser (nu_canvas this2) = ''data:image/png;base64,12345''"
    if some: "handleRender px_browser textarea example_nu = Some this1" for this1
    using handleRender_idempotent [OF some] example_dataURL [OF some] by auto
  then show ?thesis using example_returns by blast
qed

end
